theory Spec2Isabelle
  imports Main
begin

section \<open>Data model of the Sudoku state engine\<close>

text \<open>
  The engine is the class \<open>SudokuGame\<close>. Its cells are JavaScript strings: a digit
  \<open>''1''\<close> .. \<open>''9''\<close> or the empty marker \<open>''.''\<close>; the erase button sends the
  empty string. An array element is a \<open>string option\<close>: \<open>None\<close> is what JavaScript
  reads as \<open>undefined\<close> (a position past the end, or a hole left by a write past the
  end). \<open>initialBoard\<close> is a JavaScript string, indexed by character.
\<close>

type_synonym cell = "string option"

definition array_get :: "cell list \<Rightarrow> nat \<Rightarrow> cell" where
  \<comment> \<open>\<open>xs[i]\<close>: \<open>undefined\<close> out of range.\<close>
  "array_get xs i = (if i < length xs then xs ! i else None)"

definition array_set :: "cell list \<Rightarrow> nat \<Rightarrow> cell \<Rightarrow> cell list" where
  \<comment> \<open>\<open>xs[i] = v\<close>: a write past the end extends the array, leaving holes.\<close>
  "array_set xs i v =
     (if i < length xs then xs[i := v] else xs @ replicate (i - length xs) None @ [v])"

definition char_at :: "string \<Rightarrow> nat \<Rightarrow> cell" where
  \<comment> \<open>\<open>s[i]\<close> on a string: the one-character string, \<open>undefined\<close> out of range.\<close>
  "char_at s i = (if i < length s then Some [s ! i] else None)"

definition split_chars :: "string \<Rightarrow> cell list" where
  \<comment> \<open>\<open>s.split('')\<close>\<close>
  "split_chars s = map (\<lambda>c. Some [c]) s"

text \<open>
  A JavaScript \<open>Set\<close> of strings is the list of its members in insertion order,
  which is what \<open>Array.from\<close> returns.
\<close>

type_synonym jsset = "string list"

definition set_has :: "jsset \<Rightarrow> string \<Rightarrow> bool" where
  "set_has s x = (x \<in> set s)"

definition set_add :: "jsset \<Rightarrow> string \<Rightarrow> jsset" where
  "set_add s x = (if x \<in> set s then s else s @ [x])"

definition set_delete :: "jsset \<Rightarrow> string \<Rightarrow> jsset" where
  "set_delete s x = removeAll x s"

definition new_Set :: "string list \<Rightarrow> jsset" where
  \<comment> \<open>\<open>new Set(array)\<close>: the members in order of first occurrence.\<close>
  "new_Set xs = foldl set_add [] xs"

text \<open>
  The snapshot is the object \<open>saveGame\<close> hands to \<open>JSON.stringify\<close> and \<open>loadGame\<close>
  gets back from \<open>JSON.parse\<close>. A field is \<open>None\<close> when the parsed object has no
  such property (or \<open>null\<close>); an array element that is not a string is \<open>None\<close>.
  A note value is an array of strings, a single string (the legacy format) or
  anything else; the keys of the notes are cell indices. The item kept in
  \<open>localStorage\<close> under the key \<open>sudokuGameState\<close> is a text: either
  \<open>JSON.parse\<close> throws on it (or it is empty, which \<open>loadGame\<close> refuses the same
  way), or it parses to a snapshot; \<open>JSON.parse (JSON.stringify x)\<close> gives \<open>x\<close>
  back for these values.
\<close>

datatype note_json = NoteArray "string list" | NoteString string | NoteOther

record snapshot =
  s_board :: "cell list option"
  s_solution :: "cell list option"
  s_initialBoard :: "string option"
  s_notes :: "(nat \<Rightarrow> note_json option) option"
  s_difficulty :: "string option"
  s_selectedCell :: "nat option"
  s_noteMode :: "bool option"

datatype item = Unparseable | Parsed snapshot

text \<open>
  The fields of \<open>SudokuGame\<close>, and the storage item the methods read and write.
  \<open>notes_map\<close> (the field \<open>notes\<close>) maps a cell index to its note set; a missing
  property is \<open>None\<close>.
\<close>

record game =
  board :: "cell list"
  solution :: "cell list"
  initialBoard :: string
  selectedCell :: "nat option"
  difficulty :: string
  noteMode :: bool
  notes_map :: "nat \<Rightarrow> jsset option"
  storage :: "item option"

section \<open>Rows, columns and boxes\<close>

definition related :: "nat \<Rightarrow> nat \<Rightarrow> bool" where
  \<comment> \<open>The test the three scanning loops make on cell \<open>i\<close> against \<open>cellIndex\<close>.\<close>
  "related cellIndex i =
     (let row = cellIndex div 9;
          col = cellIndex mod 9;
          boxRow = (row div 3) * 3;
          boxCol = (col div 3) * 3;
          cellRow = i div 9;
          cellCol = i mod 9;
          cellBoxRow = (cellRow div 3) * 3;
          cellBoxCol = (cellCol div 3) * 3
      in cellRow = row \<or> cellCol = col \<or> (cellBoxRow = boxRow \<and> cellBoxCol = boxCol))"

definition peer :: "nat \<Rightarrow> nat \<Rightarrow> bool" where
  \<comment> \<open>The specification's peers: another cell of the board in the same row, column
      or box, a box being identified by \<open>(row div 3, col div 3)\<close>.\<close>
  "peer c p =
     (p < 81 \<and> p \<noteq> c \<and>
      (p div 9 = c div 9 \<or> p mod 9 = c mod 9 \<or>
       (p div 9 div 3 = c div 9 div 3 \<and> p mod 9 div 3 = c mod 9 div 3)))"

section \<open>Queries\<close>

fun violation_scan :: "cell list \<Rightarrow> nat \<Rightarrow> cell \<Rightarrow> nat list \<Rightarrow> bool" where
  "violation_scan b cellIndex v [] = False"
| "violation_scan b cellIndex v (i # rest) =
     (if i = cellIndex then violation_scan b cellIndex v rest
      else if related cellIndex i \<and> array_get b i = v then True
      else violation_scan b cellIndex v rest)"

definition hasConstraintViolation :: "game \<Rightarrow> nat \<Rightarrow> bool" where
  "hasConstraintViolation g cellIndex =
     (let v = array_get (board g) cellIndex
      in if v = Some ''.'' then False
         else violation_scan (board g) cellIndex v [0..<81])"

definition highlightRelatedCells :: "game \<Rightarrow> nat \<Rightarrow> nat list" where
  \<comment> \<open>The cells that receive the class \<open>highlighted\<close>.\<close>
  "highlightRelatedCells g index =
     (let currentValue = array_get (board g) index
      in filter (\<lambda>i. i \<noteq> index \<and>
                      (related index i \<or>
                       (currentValue \<noteq> Some ''.'' \<and> array_get (board g) i = currentValue)))
           [0..<81])"

section \<open>Persistence\<close>

definition snapshot_of :: "game \<Rightarrow> snapshot" where
  \<comment> \<open>The object \<open>gameState\<close> of \<open>saveGame\<close>; every note set goes out as
      \<open>Array.from\<close> of it.\<close>
  "snapshot_of g =
     \<lparr>s_board = Some (board g),
      s_solution = Some (solution g),
      s_initialBoard = Some (initialBoard g),
      s_notes = Some (\<lambda>key. map_option NoteArray (notes_map g key)),
      s_difficulty = Some (difficulty g),
      s_selectedCell = selectedCell g,
      s_noteMode = Some (noteMode g)\<rparr>"

definition saveGame :: "game \<Rightarrow> game" where
  "saveGame g = g\<lparr>storage := Some (Parsed (snapshot_of g))\<rparr>"

definition clearSavedGame :: "game \<Rightarrow> game" where
  "clearSavedGame g = g\<lparr>storage := None\<rparr>"

definition validDifficulties :: "string list" where
  "validDifficulties = [''easy'', ''medium'', ''hard'', ''expert'']"

definition load_notes :: "(nat \<Rightarrow> note_json option) option \<Rightarrow> nat \<Rightarrow> jsset option" where
  \<comment> \<open>The loop over \<open>Object.entries(gameState.notes)\<close>, entry by entry.\<close>
  "load_notes saved key =
     (case saved of
        None \<Rightarrow> None
      | Some entries \<Rightarrow>
          (case entries key of
             Some (NoteArray xs) \<Rightarrow> Some (new_Set xs)
           | Some (NoteString x) \<Rightarrow> Some (new_Set [x])
           | _ \<Rightarrow> None))"

definition loadGame :: "game \<Rightarrow> bool \<times> game" where
  \<comment> \<open>The value returned, and the object after the call. An empty string is falsy,
      an array never is.\<close>
  "loadGame g =
     (case storage g of
        None \<Rightarrow> (False, g)
      | Some Unparseable \<Rightarrow> (False, g)
      | Some (Parsed gameState) \<Rightarrow>
          (case (s_board gameState, s_solution gameState, s_initialBoard gameState) of
             (Some b, Some sol, Some ib) \<Rightarrow>
               if ib = [] then (False, g)
               else
                 (True,
                  g\<lparr>board := b,
                    solution := sol,
                    initialBoard := ib,
                    notes_map := load_notes (s_notes gameState),
                    difficulty :=
                      (case s_difficulty gameState of
                         Some d \<Rightarrow> if d \<in> set validDifficulties then d else ''medium''
                       | None \<Rightarrow> ''medium''),
                    selectedCell := s_selectedCell gameState,
                    noteMode := (case s_noteMode gameState of Some m \<Rightarrow> m | None \<Rightarrow> False)\<rparr>)
           | _ \<Rightarrow> (False, g)))"

section \<open>Operations\<close>

text \<open>
  Each method takes the object and returns it as the method leaves it. The page
  (cell classes, messages, fireworks) and the timers that clear messages are not part
  of the state; what \<open>highlightRelatedCells\<close> marks is returned as a list.
\<close>

definition startNewGame :: "string \<times> string \<Rightarrow> game \<Rightarrow> game" where
  \<comment> \<open>\<open>result\<close> is what the external \<open>getSudoku\<close> returned: the puzzle and its
      solution. The branch that waits for the library is a timer and is left out.\<close>
  "startNewGame result g =
     (let ib = map (\<lambda>c. if c = CHR ''-'' then CHR ''.'' else c) (fst result)
      in saveGame
           (g\<lparr>initialBoard := ib,
              board := split_chars ib,
              solution := split_chars (snd result),
              notes_map := (\<lambda>key. None)\<rparr>))"

definition selectCell :: "nat \<Rightarrow> game \<Rightarrow> game" where
  \<comment> \<open>There are 81 cell elements: for a larger index \<open>cells[index].classList\<close>
      throws after the selection is assigned, and nothing is saved.\<close>
  "selectCell index g =
     (let g1 = g\<lparr>selectedCell := Some index\<rparr>
      in if index < 81 then saveGame g1 else g1)"

definition eliminate_step :: "nat \<Rightarrow> string \<Rightarrow> nat \<Rightarrow> (nat \<Rightarrow> jsset option) \<Rightarrow> (nat \<Rightarrow> jsset option)" where
  \<comment> \<open>One round of the loop of \<open>eliminateNotesInRelatedCells\<close>.\<close>
  "eliminate_step cellIndex number i nts =
     (if i = cellIndex then nts
      else if related cellIndex i then
        (case nts i of
           None \<Rightarrow> nts
         | Some s \<Rightarrow>
             if set_has s number then
               (let s1 = set_delete s number
                in if length s1 = 0 then nts(i := None) else nts(i := Some s1))
             else nts)
      else nts)"

fun eliminate_loop :: "nat \<Rightarrow> string \<Rightarrow> nat list \<Rightarrow> (nat \<Rightarrow> jsset option) \<Rightarrow> (nat \<Rightarrow> jsset option)" where
  "eliminate_loop cellIndex number [] nts = nts"
| "eliminate_loop cellIndex number (i # rest) nts =
     eliminate_loop cellIndex number rest (eliminate_step cellIndex number i nts)"

definition eliminateNotesInRelatedCells :: "nat \<Rightarrow> string \<Rightarrow> game \<Rightarrow> game" where
  "eliminateNotesInRelatedCells cellIndex number g =
     g\<lparr>notes_map := eliminate_loop cellIndex number [0..<81] (notes_map g)\<rparr>"

definition isCorrect :: "game \<Rightarrow> bool" where
  \<comment> \<open>\<open>this.board.every((value, index) => value === this.solution[index])\<close>.
      A hole, which \<open>every\<close> passes over, is compared as \<open>undefined\<close> here; a
      board has one only after a write past its end.\<close>
  "isCorrect g =
     list_all (\<lambda>index. array_get (board g) index = array_get (solution g) index)
       [0..<length (board g)]"

definition checkWin :: "game \<Rightarrow> bool \<times> game" where
  \<comment> \<open>Which of the two messages is shown, and the object after the call.\<close>
  "checkWin g = (if isCorrect g then (True, clearSavedGame g) else (False, g))"

definition isComplete :: "game \<Rightarrow> bool" where
  \<comment> \<open>\<open>!this.board.includes('.')\<close>\<close>
  "isComplete g = (Some ''.'' \<notin> set (board g))"

definition toggle_note :: "string \<Rightarrow> nat \<Rightarrow> (nat \<Rightarrow> jsset option) \<Rightarrow> (nat \<Rightarrow> jsset option)" where
  \<comment> \<open>The note-mode branch of \<open>placeNumber\<close> for a digit.\<close>
  "toggle_note number sel nts =
     (let s = (case nts sel of None \<Rightarrow> [] | Some s0 \<Rightarrow> s0)
      in if set_has s number then
           (let s1 = set_delete s number
            in if length s1 = 0 then nts(sel := None) else nts(sel := Some s1))
         else nts(sel := Some (set_add s number)))"

definition place_update :: "string \<Rightarrow> nat \<Rightarrow> game \<Rightarrow> game" where
  \<comment> \<open>The branch of \<open>placeNumber\<close> on \<open>noteMode\<close>, at the selected cell.\<close>
  "place_update number sel g =
     (if noteMode g then
        (if number = [] then
           g\<lparr>notes_map := (notes_map g)(sel := None),
             board := array_set (board g) sel (Some ''.'')\<rparr>
         else
           g\<lparr>notes_map := toggle_note number sel (notes_map g),
             board := array_set (board g) sel (Some ''.'')\<rparr>)
      else
        (let g0 = g\<lparr>notes_map := (notes_map g)(sel := None),
                     board := array_set (board g) sel
                                (Some (if number = [] then ''.'' else number))\<rparr>
         in if number \<noteq> [] then eliminateNotesInRelatedCells sel number g0 else g0))"

definition placeNumber :: "string \<Rightarrow> game \<Rightarrow> game" where
  \<comment> \<open>The erase button sends the empty string \<open>[]\<close>.\<close>
  "placeNumber number g =
     (case selectedCell g of
        None \<Rightarrow> g
      | Some sel \<Rightarrow>
          if char_at (initialBoard g) sel \<noteq> Some ''.'' then g
          else
            let g2 = saveGame (place_update number sel g)
            in if \<not> noteMode g2 \<and> isComplete g2 then snd (checkWin g2) else g2)"

definition emptyCells :: "game \<Rightarrow> nat list" where
  "emptyCells g =
     filter (\<lambda>index. array_get (board g) index = Some ''.'' \<and>
                      char_at (initialBoard g) index = Some ''.'')
       [0..<length (board g)]"

definition hint_update :: "nat \<Rightarrow> game \<Rightarrow> game" where
  \<comment> \<open>The writes of \<open>showHint\<close> at the chosen cell. A set of strings never has
      \<open>undefined\<close>, so an undefined hint number eliminates nothing.\<close>
  "hint_update randomIndex g =
     (let hintNumber = array_get (solution g) randomIndex;
          g1 = g\<lparr>board := array_set (board g) randomIndex hintNumber,
                 notes_map := (notes_map g)(randomIndex := None)\<rparr>
      in case hintNumber of
           Some d \<Rightarrow> eliminateNotesInRelatedCells randomIndex d g1
         | None \<Rightarrow> g1)"

definition showHint :: "nat \<Rightarrow> game \<Rightarrow> game" where
  \<comment> \<open>\<open>k\<close> is the value of \<open>Math.floor(Math.random() * emptyCells.length)\<close>, which
      is below \<open>emptyCells.length\<close>.\<close>
  "showHint k g =
     (if length (emptyCells g) = 0 \<or> length (emptyCells g) \<le> k then g
      else
        let randomIndex = emptyCells g ! k;
            g3 = selectCell randomIndex (hint_update randomIndex g)
        in if randomIndex < 81 then
             (let g4 = saveGame g3
              in if isComplete g4 then snd (checkWin g4) else g4)
           else g3)"

definition changeNoteMode :: "bool \<Rightarrow> game \<Rightarrow> game" where
  \<comment> \<open>The \<open>change\<close> listener of the note-mode toggle.\<close>
  "changeNoteMode checked g = saveGame (g\<lparr>noteMode := checked\<rparr>)"

definition changeDifficulty :: "string \<Rightarrow> game \<Rightarrow> game" where
  \<comment> \<open>The \<open>change\<close> listener of the difficulty select. The class has no method
      \<open>updateDifficultyDisplay\<close>: the call throws and \<open>saveGame\<close> is not reached.\<close>
  "changeDifficulty v g = g\<lparr>difficulty := v\<rparr>"

definition fresh :: "item option \<Rightarrow> game" where
  \<comment> \<open>The fields as the constructor assigns them, before a game is loaded or
      started; \<open>null\<close> boards are written as empty.\<close>
  "fresh st =
     \<lparr>board = [], solution = [], initialBoard = [], selectedCell = None,
      difficulty = ''medium'', noteMode = False, notes_map = (\<lambda>key. None), storage = st\<rparr>"

definition constructor :: "string \<times> string \<Rightarrow> item option \<Rightarrow> game" where
  \<comment> \<open>\<open>if (!this.loadGame()) this.startNewGame()\<close>, on the storage found at start.\<close>
  "constructor result st =
     (case loadGame (fresh st) of
        (True, g) \<Rightarrow> g
      | (False, g) \<Rightarrow> startNewGame result g)"

section \<open>Reachable states\<close>

text \<open>
  The states of a started game: the constructor runs on an empty storage or on the
  storage a previous run left, and then the listeners run. The cell listeners pass
  an index below 81, the difficulty select offers the four difficulties that
  \<open>loadGame\<close> accepts, the number pad sends any string, and \<open>Math.random\<close> is
  below 1.
\<close>

definition generated :: "string \<times> string \<Rightarrow> bool" where
  \<comment> \<open>The contract of the external generator: an 81-character puzzle of digits
      and blank markers, and an 81-digit solution.\<close>
  "generated result =
     (length (fst result) = 81 \<and> length (snd result) = 81 \<and>
      list_all (\<lambda>c. c \<in> set ''123456789-.'') (fst result) \<and>
      list_all (\<lambda>c. c \<in> set ''123456789'') (snd result))"

inductive reachable :: "game \<Rightarrow> bool" where
  first_run: "generated r \<Longrightarrow> reachable (constructor r None)"
| next_run: "generated r \<Longrightarrow> reachable g \<Longrightarrow> reachable (constructor r (storage g))"
| new_game: "generated r \<Longrightarrow> reachable g \<Longrightarrow> reachable (startNewGame r g)"
| select: "i < 81 \<Longrightarrow> reachable g \<Longrightarrow> reachable (selectCell i g)"
| place: "reachable g \<Longrightarrow> reachable (placeNumber n g)"
| hint: "k < length (emptyCells g) \<Longrightarrow> reachable g \<Longrightarrow> reachable (showHint k g)"
| note_mode: "reachable g \<Longrightarrow> reachable (changeNoteMode m g)"
| set_difficulty:
    "v \<in> set validDifficulties \<Longrightarrow> reachable g \<Longrightarrow> reachable (changeDifficulty v g)"

section \<open>Invariants\<close>

definition without :: "string \<Rightarrow> jsset option \<Rightarrow> jsset option" where
  \<comment> \<open>A note entry after a digit is taken out of it: an entry that becomes empty
      is gone.\<close>
  "without d entry =
     (case entry of
        None \<Rightarrow> None
      | Some s \<Rightarrow>
          if d \<in> set s then (if removeAll d s = [] then None else Some (removeAll d s))
          else Some s)"

definition wellformed :: "game \<Rightarrow> bool" where
  "wellformed g =
     (length (initialBoard g) = 81 \<and> length (board g) = 81 \<and> length (solution g) = 81 \<and>
      None \<notin> set (solution g) \<and> Some ''.'' \<notin> set (solution g) \<and>
      (\<forall>i<81. initialBoard g ! i \<noteq> CHR ''.'' \<longrightarrow> board g ! i = Some [initialBoard g ! i]) \<and>
      (\<forall>i. notes_map g i \<noteq> None \<longrightarrow> i < 81 \<and> board g ! i = Some ''.'') \<and>
      (\<forall>i. notes_map g i \<noteq> Some []) \<and>
      difficulty g \<in> set validDifficulties \<and>
      (\<forall>i. selectedCell g = Some i \<longrightarrow> i < 81))"

definition stored_ok :: "game \<Rightarrow> bool" where
  \<comment> \<open>The storage is empty or holds the snapshot of a well-formed game.\<close>
  "stored_ok g =
     (storage g = None \<or>
      (\<exists>g0. wellformed g0 \<and> storage g = Some (Parsed (snapshot_of g0))))"

section \<open>The engine of game.js\<close>

text \<open>
  \<open>game.js\<close> holds a second \<open>SudokuGame\<close>, without persistence and without
  elimination, that keeps one note string per cell: the format \<open>loadGame\<close> above
  calls legacy. Its \<open>selectCell\<close> and \<open>placeNumber\<close> are modelled to compare them
  with the engine above; its \<open>checkWin\<close> only shows a message.
\<close>

record game_js =
  js_board :: "cell list"
  js_initialBoard :: string
  js_selectedCell :: "nat option"
  js_noteMode :: bool
  js_notes :: "nat \<Rightarrow> string option"

definition game_js_selectCell :: "nat \<Rightarrow> game_js \<Rightarrow> game_js" where
  "game_js_selectCell index h =
     (if char_at (js_initialBoard h) index \<noteq> Some ''.'' then h
      else h\<lparr>js_selectedCell := Some index\<rparr>)"

definition game_js_placeNumber :: "string \<Rightarrow> game_js \<Rightarrow> game_js" where
  "game_js_placeNumber number h =
     (case js_selectedCell h of
        None \<Rightarrow> h
      | Some sel \<Rightarrow>
          if char_at (js_initialBoard h) sel \<noteq> Some ''.'' then h
          else if js_noteMode h then
            (if number = [] then h\<lparr>js_notes := (js_notes h)(sel := None)\<rparr>
             else h\<lparr>js_notes := (js_notes h)(sel := Some number),
                    js_board := array_set (js_board h) sel (Some ''.'')\<rparr>)
          else
            h\<lparr>js_notes := (js_notes h)(sel := None),
              js_board := array_set (js_board h) sel
                            (Some (if number = [] then ''.'' else number))\<rparr>)"

section \<open>Sample games\<close>

text \<open>
  A puzzle and its solution as the generator returns them, and states of the game
  played on it; \<open>legacy_snapshot\<close> is a saved item in the older note format.
\<close>

definition sample_result :: "string \<times> string" where
  "sample_result =
     (''53--7----6--195----98----6-8---6---34--8-3--17---2---6-6----28----419--5----8--79'',
      ''534678912672195348198342567859761423426853791713924856961537284287419635345286179'')"

definition sample_game :: game where
  "sample_game = constructor sample_result None"

definition sample_noted :: game where
  "sample_noted = placeNumber ''4'' (changeNoteMode True (selectCell 2 sample_game))"

definition sample_clash :: game where
  "sample_clash = placeNumber ''5'' (selectCell 2 sample_game)"

definition sample_penciled :: game where
  "sample_penciled =
     sample_game\<lparr>selectedCell := Some 2,
       notes_map := (\<lambda>k. if k = 3 then Some [''4'', ''7''] else if k = 11 then Some [''4''] else None)\<rparr>"

definition sample_solved :: game where
  "sample_solved = sample_game\<lparr>board := solution sample_game\<rparr>"

definition sample_wrong :: game where
  "sample_wrong = sample_game\<lparr>board := array_set (solution sample_game) 2 (Some ''9'')\<rparr>"

definition sample_valued :: game where
  "sample_valued = changeNoteMode True (placeNumber ''4'' (selectCell 2 sample_game))"

definition legacy_snapshot :: snapshot where
  "legacy_snapshot =
     (snapshot_of sample_game)
       \<lparr>s_notes := Some (\<lambda>k. if k = 2 then Some (NoteString ''4'') else None),
        s_difficulty := Some ''insane''\<rparr>"

section \<open>Basic facts\<close>

lemma array_get_set: "array_get (array_set xs i v) j = (if j = i then v else array_get xs j)"
  by (auto simp: array_get_def array_set_def nth_append)

lemma array_set_in_range: "i < length xs \<Longrightarrow> array_set xs i v = xs[i := v]"
  by (simp add: array_set_def)

lemma related_peer: "i < 81 \<Longrightarrow> i \<noteq> c \<Longrightarrow> related c i = peer c i"
  unfolding related_def peer_def Let_def by auto

lemma set_foldl_set_add: "set (foldl set_add acc xs) = set acc \<union> set xs"
  by (induction xs arbitrary: acc) (auto simp: set_add_def)

lemma set_new_Set: "set (new_Set xs) = set xs"
  by (simp add: new_Set_def set_foldl_set_add)

lemma new_Set_empty: "new_Set xs = [] \<longleftrightarrow> xs = []"
  using set_new_Set[of xs] by (metis set_empty)

lemma without_idem: "without d (without d e) = without d e"
  by (auto simp: without_def split: option.splits)

lemma eliminate_step_at:
  "eliminate_step c d i nts p =
     (if p = i \<and> i \<noteq> c \<and> related c i then without d (nts p) else nts p)"
  by (auto simp: eliminate_step_def without_def set_has_def set_delete_def Let_def
           split: option.splits)

lemma eliminate_loop_at:
  "eliminate_loop c d is nts p =
     (if p \<in> set is \<and> p \<noteq> c \<and> related c p then without d (nts p) else nts p)"
proof (induction "is" arbitrary: nts)
  case Nil
  show ?case by simp
next
  case (Cons i rest)
  show ?case
    by (auto simp: Cons.IH eliminate_step_at without_idem)
qed

lemma eliminate_notes_at:
  "notes_map (eliminateNotesInRelatedCells c d g) p =
     (if peer c p then without d (notes_map g p) else notes_map g p)"
proof (cases "p < 81 \<and> p \<noteq> c")
  case True
  then show ?thesis
    by (simp add: eliminateNotesInRelatedCells_def eliminate_loop_at related_peer)
next
  case False
  then show ?thesis
    by (auto simp: eliminateNotesInRelatedCells_def eliminate_loop_at peer_def)
qed

lemma without_None: "e = None \<Longrightarrow> without d e = None"
  by (simp add: without_def)

lemma without_not_empty: "e \<noteq> Some [] \<Longrightarrow> without d e \<noteq> Some []"
  by (auto simp: without_def split: option.splits)

lemma without_Some: "without d e = Some s \<Longrightarrow> e \<noteq> None \<and> d \<notin> set s"
  by (auto simp: without_def split: option.splits if_splits)

lemma toggle_note_other: "p \<noteq> sel \<Longrightarrow> toggle_note d sel nts p = nts p"
  by (simp add: toggle_note_def Let_def)

lemma toggle_note_not_empty: "nts p \<noteq> Some [] \<Longrightarrow> toggle_note d sel nts p \<noteq> Some []"
  by (auto simp: toggle_note_def Let_def set_add_def set_has_def set_delete_def split: option.splits)

lemma wellformed_storage [simp]: "wellformed (g\<lparr>storage := st\<rparr>) = wellformed g"
  by (simp add: wellformed_def)

lemma snapshot_of_storage [simp]: "snapshot_of (g\<lparr>storage := st\<rparr>) = snapshot_of g"
  by (simp add: snapshot_of_def)

lemma wellformed_saveGame: "wellformed g \<Longrightarrow> wellformed (saveGame g) \<and> stored_ok (saveGame g)"
  by (auto simp: saveGame_def stored_ok_def)

lemma wellformed_clear: "wellformed g \<Longrightarrow> wellformed (clearSavedGame g) \<and> stored_ok (clearSavedGame g)"
  by (auto simp: clearSavedGame_def stored_ok_def)

lemma wellformed_checkWin:
  "wellformed g \<Longrightarrow> stored_ok g \<Longrightarrow> wellformed (snd (checkWin g)) \<and> stored_ok (snd (checkWin g))"
  by (simp add: checkWin_def wellformed_clear)

lemma place_update_fields:
  "initialBoard (place_update n sel g) = initialBoard g"
  "solution (place_update n sel g) = solution g"
  "difficulty (place_update n sel g) = difficulty g"
  "selectedCell (place_update n sel g) = selectedCell g"
  "noteMode (place_update n sel g) = noteMode g"
  "storage (place_update n sel g) = storage g"
  by (simp_all add: place_update_def eliminateNotesInRelatedCells_def Let_def)

lemma place_update_board:
  "board (place_update n sel g) =
     array_set (board g) sel (Some (if noteMode g \<or> n = [] then ''.'' else n))"
  by (simp add: place_update_def eliminateNotesInRelatedCells_def Let_def)

lemma place_update_notes:
  "notes_map (place_update n sel g) p =
     (if noteMode g then
        (if n = [] then (if p = sel then None else notes_map g p)
         else toggle_note n sel (notes_map g) p)
      else if p = sel then None
      else if n \<noteq> [] \<and> peer sel p then without n (notes_map g p)
      else notes_map g p)"
  by (auto simp: place_update_def Let_def eliminate_notes_at peer_def)

lemma wellformed_place_update:
  assumes wf: "wellformed g" and sel: "sel < 81" and free: "initialBoard g ! sel = CHR ''.''"
  shows "wellformed (place_update n sel g)"
proof -
  let ?g = "place_update n sel g"
  have len: "length (board g) = 81" using wf by (simp add: wellformed_def)
  have b: "board ?g = (board g)[sel := Some (if noteMode g \<or> n = [] then ''.'' else n)]"
    using sel len by (simp add: place_update_board array_set_in_range)
  have given: "\<forall>i<81. initialBoard ?g ! i \<noteq> CHR ''.'' \<longrightarrow> board ?g ! i = Some [initialBoard ?g ! i]"
  proof (intro allI impI)
    fix i assume i: "i < 81" and gi: "initialBoard ?g ! i \<noteq> CHR ''.''"
    then have "i \<noteq> sel" using free by (auto simp: place_update_fields)
    then show "board ?g ! i = Some [initialBoard ?g ! i]"
      using wf i gi by (simp add: b place_update_fields wellformed_def)
  qed
  have notes1: "\<forall>i. notes_map ?g i \<noteq> None \<longrightarrow> i < 81 \<and> board ?g ! i = Some ''.''"
  proof (intro allI impI)
    fix i assume n: "notes_map ?g i \<noteq> None"
    show "i < 81 \<and> board ?g ! i = Some ''.''"
    proof (cases "i = sel")
      case True
      then have "noteMode g" using n by (auto simp: place_update_notes split: if_splits)
      then show ?thesis using True sel len by (simp add: b)
    next
      case False
      then have "notes_map g i \<noteq> None"
        using n by (auto simp: place_update_notes toggle_note_other dest: without_Some split: if_splits)
      then show ?thesis using wf False by (simp add: b wellformed_def)
    qed
  qed
  have notes2: "\<forall>i. notes_map ?g i \<noteq> Some []"
  proof
    fix i
    have "notes_map g i \<noteq> Some []" using wf by (simp add: wellformed_def)
    then show "notes_map ?g i \<noteq> Some []"
      by (auto simp: place_update_notes toggle_note_not_empty without_not_empty)
  qed
  show ?thesis
    unfolding wellformed_def
    using wf given notes1 notes2
    by (simp add: place_update_fields wellformed_def b)
qed

lemma char_at_free: "char_at s i = Some ''.'' \<longleftrightarrow> i < length s \<and> s ! i = CHR ''.''"
  by (auto simp: char_at_def)

lemma finish_ok:
  assumes "wellformed g1"
  shows "wellformed (if c (saveGame g1) then snd (checkWin (saveGame g1)) else saveGame g1) \<and>
         stored_ok (if c (saveGame g1) then snd (checkWin (saveGame g1)) else saveGame g1)"
  using wellformed_saveGame[OF assms] by (simp add: wellformed_checkWin)

lemma wellformed_placeNumber:
  assumes wf: "wellformed g" and st: "stored_ok g"
  shows "wellformed (placeNumber n g) \<and> stored_ok (placeNumber n g)"
proof (cases "selectedCell g")
  case None
  then show ?thesis using wf st by (simp add: placeNumber_def)
next
  case (Some sel)
  show ?thesis
  proof (cases "char_at (initialBoard g) sel = Some ''.''")
    case False
    then show ?thesis using wf st Some by (simp add: placeNumber_def)
  next
    case True
    have sel: "sel < 81" using wf Some by (simp add: wellformed_def)
    have "initialBoard g ! sel = CHR ''.''" using True by (simp add: char_at_free)
    then have w: "wellformed (place_update n sel g)"
      by (rule wellformed_place_update[OF wf sel])
    show ?thesis
      using finish_ok[OF w, of "\<lambda>g2. \<not> noteMode g2 \<and> isComplete g2"] Some True
      by (simp add: placeNumber_def Let_def)
  qed
qed

lemma emptyCells_mem:
  "i \<in> set (emptyCells g) \<longleftrightarrow>
     i < length (board g) \<and> board g ! i = Some ''.'' \<and> char_at (initialBoard g) i = Some ''.''"
  by (auto simp: emptyCells_def array_get_def)

lemma hint_update_fields:
  "initialBoard (hint_update i g) = initialBoard g"
  "solution (hint_update i g) = solution g"
  "difficulty (hint_update i g) = difficulty g"
  "selectedCell (hint_update i g) = selectedCell g"
  "noteMode (hint_update i g) = noteMode g"
  "storage (hint_update i g) = storage g"
  by (simp_all add: hint_update_def eliminateNotesInRelatedCells_def Let_def split: option.splits)

lemma hint_update_board:
  "board (hint_update i g) = array_set (board g) i (array_get (solution g) i)"
  by (simp add: hint_update_def eliminateNotesInRelatedCells_def Let_def split: option.splits)

lemma hint_update_notes:
  "notes_map (hint_update i g) p =
     (if p = i then None
      else case array_get (solution g) i of
             Some d \<Rightarrow> if peer i p then without d (notes_map g p) else notes_map g p
           | None \<Rightarrow> notes_map g p)"
  by (auto simp: hint_update_def Let_def eliminate_notes_at peer_def split: option.splits)

lemma wellformed_hint_update:
  assumes wf: "wellformed g" and mem: "i \<in> set (emptyCells g)"
  shows "wellformed (hint_update i g)"
proof -
  let ?g = "hint_update i g"
  have len: "length (board g) = 81" "length (solution g) = 81"
    using wf by (simp_all add: wellformed_def)
  have i: "i < 81" and free: "initialBoard g ! i = CHR ''.''"
    using mem len by (auto simp: emptyCells_mem char_at_free)
  have b: "board ?g = (board g)[i := solution g ! i]"
    using i len by (simp add: hint_update_board array_set_in_range array_get_def)
  have given: "\<forall>j<81. initialBoard ?g ! j \<noteq> CHR ''.'' \<longrightarrow> board ?g ! j = Some [initialBoard ?g ! j]"
  proof (intro allI impI)
    fix j assume j: "j < 81" and gj: "initialBoard ?g ! j \<noteq> CHR ''.''"
    then have "j \<noteq> i" using free by (auto simp: hint_update_fields)
    then show "board ?g ! j = Some [initialBoard ?g ! j]"
      using wf j gj by (simp add: b hint_update_fields wellformed_def)
  qed
  have notes1: "\<forall>j. notes_map ?g j \<noteq> None \<longrightarrow> j < 81 \<and> board ?g ! j = Some ''.''"
  proof (intro allI impI)
    fix j assume n: "notes_map ?g j \<noteq> None"
    then have ji: "j \<noteq> i" by (auto simp: hint_update_notes)
    then have "notes_map g j \<noteq> None"
      using n by (auto simp: hint_update_notes dest: without_Some split: option.splits if_splits)
    then show "j < 81 \<and> board ?g ! j = Some ''.''"
      using wf ji by (simp add: b wellformed_def)
  qed
  have notes2: "\<forall>j. notes_map ?g j \<noteq> Some []"
  proof
    fix j
    have "notes_map g j \<noteq> Some []" using wf by (simp add: wellformed_def)
    then show "notes_map ?g j \<noteq> Some []"
      by (auto simp: hint_update_notes without_not_empty split: option.splits)
  qed
  show ?thesis
    unfolding wellformed_def
    using wf given notes1 notes2
    by (simp add: hint_update_fields wellformed_def b)
qed

lemma wellformed_selectCell:
  "wellformed g \<Longrightarrow> stored_ok g \<Longrightarrow> i < 81 \<Longrightarrow>
     wellformed (selectCell i g) \<and> stored_ok (selectCell i g)"
proof -
  assume wf: "wellformed g" and "stored_ok g" and i: "i < 81"
  have "wellformed (g\<lparr>selectedCell := Some i\<rparr>)"
    using wf i by (simp add: wellformed_def)
  then show ?thesis using i by (simp add: selectCell_def Let_def wellformed_saveGame)
qed

lemma wellformed_showHint:
  assumes wf: "wellformed g" and st: "stored_ok g"
  shows "wellformed (showHint k g) \<and> stored_ok (showHint k g)"
proof (cases "length (emptyCells g) = 0 \<or> length (emptyCells g) \<le> k")
  case True
  then show ?thesis using wf st by (simp add: showHint_def)
next
  case False
  let ?i = "emptyCells g ! k"
  have mem: "?i \<in> set (emptyCells g)" using False by simp
  have i: "?i < 81" using mem wf by (simp add: emptyCells_mem wellformed_def)
  have w: "wellformed (hint_update ?i g)" using wf mem by (rule wellformed_hint_update)
  then have w1: "wellformed ((hint_update ?i g)\<lparr>selectedCell := Some ?i\<rparr>)"
    using i by (simp add: wellformed_def)
  have eq: "saveGame (selectCell ?i (hint_update ?i g)) = saveGame ((hint_update ?i g)\<lparr>selectedCell := Some ?i\<rparr>)"
    using i by (simp add: selectCell_def Let_def saveGame_def)
  show ?thesis
    using finish_ok[OF w1, of isComplete] False i
    by (simp add: showHint_def Let_def eq)
qed

lemma wellformed_startNewGame:
  assumes gen: "generated r"
    and d: "difficulty g \<in> set validDifficulties"
    and s: "\<forall>i. selectedCell g = Some i \<longrightarrow> i < 81"
  shows "wellformed (startNewGame r g) \<and> stored_ok (startNewGame r g)"
proof -
  let ?ib = "map (\<lambda>c. if c = CHR ''-'' then CHR ''.'' else c) (fst r)"
  let ?g = "g\<lparr>initialBoard := ?ib, board := split_chars ?ib,
              solution := split_chars (snd r), notes_map := (\<lambda>key. None)\<rparr>"
  have l1: "length (fst r) = 81" and l2: "length (snd r) = 81"
    and digits: "\<forall>c \<in> set (snd r). c \<in> set ''123456789''"
    using gen by (simp_all add: generated_def list_all_iff)
  have "CHR ''.'' \<notin> set ''123456789''" by simp
  then have "CHR ''.'' \<notin> set (snd r)" using digits by blast
  then have sol: "None \<notin> set (split_chars (snd r))" "Some ''.'' \<notin> set (split_chars (snd r))"
    unfolding split_chars_def by (simp_all add: image_iff)
  have "wellformed ?g"
    unfolding wellformed_def using l1 l2 sol d s
    by (simp add: split_chars_def)
  then show ?thesis
    using wellformed_saveGame[of ?g] by (simp add: startNewGame_def Let_def)
qed

lemma load_notes_saved:
  "load_notes (s_notes (snapshot_of g)) k = map_option new_Set (notes_map g k)"
  by (simp add: load_notes_def snapshot_of_def split: option.splits)

lemma snapshot_of_fields:
  "s_board (snapshot_of g) = Some (board g)"
  "s_solution (snapshot_of g) = Some (solution g)"
  "s_initialBoard (snapshot_of g) = Some (initialBoard g)"
  "s_difficulty (snapshot_of g) = Some (difficulty g)"
  "s_selectedCell (snapshot_of g) = selectedCell g"
  "s_noteMode (snapshot_of g) = Some (noteMode g)"
  by (simp_all add: snapshot_of_def)

lemma loadGame_saved:
  assumes st: "storage g = Some (Parsed (snapshot_of g0))"
    and ib: "initialBoard g0 \<noteq> []"
    and d: "difficulty g0 \<in> set validDifficulties"
  shows "loadGame g =
     (True, g\<lparr>board := board g0, solution := solution g0, initialBoard := initialBoard g0,
              notes_map := (\<lambda>k. map_option new_Set (notes_map g0 k)),
              difficulty := difficulty g0, selectedCell := selectedCell g0,
              noteMode := noteMode g0\<rparr>)"
proof -
  have n: "load_notes (s_notes (snapshot_of g0)) = (\<lambda>k. map_option new_Set (notes_map g0 k))"
    by (rule ext) (rule load_notes_saved)
  show ?thesis
    unfolding loadGame_def st using ib d
    by (simp add: n snapshot_of_fields)
qed

lemma wellformed_loaded:
  assumes wf: "wellformed g0"
  shows "wellformed (g\<lparr>board := board g0, solution := solution g0, initialBoard := initialBoard g0,
              notes_map := (\<lambda>k. map_option new_Set (notes_map g0 k)),
              difficulty := difficulty g0, selectedCell := selectedCell g0,
              noteMode := noteMode g0\<rparr>)"
  using wf unfolding wellformed_def by (auto simp: new_Set_empty)

lemma wellformed_loadGame:
  assumes st: "stored_ok g"
  shows "fst (loadGame g) \<Longrightarrow> wellformed (snd (loadGame g)) \<and> stored_ok (snd (loadGame g))"
    and "\<not> fst (loadGame g) \<Longrightarrow> snd (loadGame g) = g"
proof -
  show "\<not> fst (loadGame g) \<Longrightarrow> snd (loadGame g) = g"
    by (auto simp: loadGame_def split: option.splits item.splits if_splits)
  assume ok: "fst (loadGame g)"
  then have "storage g \<noteq> None" by (auto simp: loadGame_def split: option.splits)
  then obtain g0 where wf0: "wellformed g0" and s: "storage g = Some (Parsed (snapshot_of g0))"
    using st by (auto simp: stored_ok_def)
  have ib: "initialBoard g0 \<noteq> []" using wf0 by (auto simp: wellformed_def)
  have d: "difficulty g0 \<in> set validDifficulties" using wf0 by (simp add: wellformed_def)
  show "wellformed (snd (loadGame g)) \<and> stored_ok (snd (loadGame g))"
    using wellformed_loaded[OF wf0, of g] wf0 s
    by (auto simp: loadGame_saved[OF s ib d] stored_ok_def)
qed

lemma wellformed_constructor:
  assumes gen: "generated r"
    and st: "st = None \<or> (\<exists>g0. wellformed g0 \<and> st = Some (Parsed (snapshot_of g0)))"
  shows "wellformed (constructor r st) \<and> stored_ok (constructor r st)"
proof -
  have ok: "stored_ok (fresh st)" using st by (simp add: stored_ok_def fresh_def)
  show ?thesis
  proof (cases "fst (loadGame (fresh st))")
    case True
    then have "constructor r st = snd (loadGame (fresh st))"
      by (cases "loadGame (fresh st)") (auto simp: constructor_def)
    then show ?thesis using wellformed_loadGame(1)[OF ok True] by simp
  next
    case False
    then have "constructor r st = startNewGame r (fresh st)"
      using wellformed_loadGame(2)[OF ok False]
      by (cases "loadGame (fresh st)") (auto simp: constructor_def)
    moreover have "wellformed (startNewGame r (fresh st)) \<and> stored_ok (startNewGame r (fresh st))"
      by (rule wellformed_startNewGame[OF gen]) (simp_all add: fresh_def validDifficulties_def)
    ultimately show ?thesis by simp
  qed
qed

lemma reachable_wellformed: "reachable g \<Longrightarrow> wellformed g \<and> stored_ok g"
proof (induction rule: reachable.induct)
  case (first_run r)
  then show ?case by (simp add: wellformed_constructor)
next
  case (next_run r g)
  then have "storage g = None \<or> (\<exists>g0. wellformed g0 \<and> storage g = Some (Parsed (snapshot_of g0)))"
    by (simp add: stored_ok_def)
  with next_run.hyps(1) show ?case by (rule wellformed_constructor)
next
  case (new_game r g)
  then have "difficulty g \<in> set validDifficulties" "\<forall>i. selectedCell g = Some i \<longrightarrow> i < 81"
    by (simp_all add: wellformed_def)
  with new_game.hyps(1) show ?case by (rule wellformed_startNewGame)
next
  case (select i g)
  then show ?case by (simp add: wellformed_selectCell)
next
  case (place g n)
  then show ?case by (simp add: wellformed_placeNumber)
next
  case (hint k g)
  then show ?case by (simp add: wellformed_showHint)
next
  case (note_mode g m)
  then have "wellformed (g\<lparr>noteMode := m\<rparr>)" by (simp add: wellformed_def)
  then show ?case by (simp add: changeNoteMode_def wellformed_saveGame)
next
  case (set_difficulty v g)
  then show ?case by (simp add: changeDifficulty_def wellformed_def stored_ok_def)
qed

lemma generated_sample: "generated sample_result"
  by (simp add: generated_def sample_result_def)

lemma reachable_sample: "reachable sample_game"
  unfolding sample_game_def by (rule reachable.first_run) (rule generated_sample)

lemma sample_game_eq: "sample_game = startNewGame sample_result (fresh None)"
  by (simp add: sample_game_def constructor_def loadGame_def fresh_def)

lemma sample_fields:
  "board sample_game = split_chars ''53..7....6..195....98....6.8...6...34..8.3..17...2...6.6....28....419..5....8..79''"
  "initialBoard sample_game = ''53..7....6..195....98....6.8...6...34..8.3..17...2...6.6....28....419..5....8..79''"
  "notes_map sample_game = (\<lambda>k. None)"
  "selectedCell sample_game = None"
  "noteMode sample_game = False"
  by (simp_all add: sample_game_eq startNewGame_def saveGame_def fresh_def sample_result_def Let_def)

lemma finish_fields:
  "board (snd (checkWin g)) = board g"
  "notes_map (snd (checkWin g)) = notes_map g"
  "initialBoard (snd (checkWin g)) = initialBoard g"
  "selectedCell (snd (checkWin g)) = selectedCell g"
  "noteMode (snd (checkWin g)) = noteMode g"
  "board (saveGame g) = board g"
  "notes_map (saveGame g) = notes_map g"
  "initialBoard (saveGame g) = initialBoard g"
  "selectedCell (saveGame g) = selectedCell g"
  "noteMode (saveGame g) = noteMode g"
  by (simp_all add: checkWin_def clearSavedGame_def saveGame_def)

lemma placeNumber_free:
  assumes "selectedCell g = Some c" and "char_at (initialBoard g) c = Some ''.''"
  shows "board (placeNumber n g) = board (place_update n c g)"
    and "notes_map (placeNumber n g) = notes_map (place_update n c g)"
    and "initialBoard (placeNumber n g) = initialBoard g"
    and "selectedCell (placeNumber n g) = Some c"
    and "noteMode (placeNumber n g) = noteMode g"
  using assms by (simp_all add: placeNumber_def Let_def finish_fields place_update_fields)

lemma placeNumber_blocked:
  "selectedCell g = None \<or> (\<exists>c. selectedCell g = Some c \<and> char_at (initialBoard g) c \<noteq> Some ''.'')
     \<Longrightarrow> placeNumber n g = g"
  by (auto simp: placeNumber_def)

lemma placeNumber_given_cell:
  assumes "char_at (initialBoard g) i \<noteq> Some ''.''"
  shows "array_get (board (placeNumber n g)) i = array_get (board g) i"
proof (cases "\<exists>c. selectedCell g = Some c \<and> char_at (initialBoard g) c = Some ''.''")
  case True
  then obtain c where c: "selectedCell g = Some c" "char_at (initialBoard g) c = Some ''.''"
    by blast
  then have "i \<noteq> c" using assms by auto
  then show ?thesis
    by (simp add: placeNumber_free(1)[OF c] place_update_board array_get_set)
next
  case False
  then have "placeNumber n g = g" by (intro placeNumber_blocked) (cases "selectedCell g", auto)
  then show ?thesis by simp
qed

lemma placeNumber_initialBoard: "initialBoard (placeNumber n g) = initialBoard g"
  by (simp add: placeNumber_def Let_def finish_fields place_update_fields split: option.splits)

lemma saveGame_storage: "storage (saveGame S) = Some (Parsed (snapshot_of S))"
  by (simp add: saveGame_def)

lemma isCorrect_iff:
  "isCorrect g \<longleftrightarrow> (\<forall>i<length (board g). array_get (board g) i = array_get (solution g) i)"
  by (auto simp: isCorrect_def list_all_iff)

lemma reachable_noted: "reachable sample_noted"
  unfolding sample_noted_def
  by (intro reachable.place reachable.note_mode reachable.select reachable_sample) simp

lemma selected_fields:
  "selectedCell (changeNoteMode m (selectCell i g)) = Some i"
  "noteMode (changeNoteMode m (selectCell i g)) = m"
  "initialBoard (changeNoteMode m (selectCell i g)) = initialBoard g"
  "board (changeNoteMode m (selectCell i g)) = board g"
  "notes_map (changeNoteMode m (selectCell i g)) = notes_map g"
  by (simp_all add: changeNoteMode_def selectCell_def saveGame_def Let_def)

lemma sample_free_2: "char_at (initialBoard sample_game) 2 = Some ''.''"
  by (simp add: sample_fields char_at_def)

lemma sample_noted_fields:
  "selectedCell sample_noted = Some 2"
  "noteMode sample_noted"
  "notes_map sample_noted 2 = Some [''4'']"
  "array_get (board sample_noted) 2 = Some ''.''"
  "initialBoard sample_noted = initialBoard sample_game"
proof -
  let ?g = "changeNoteMode True (selectCell 2 sample_game)"
  have s: "selectedCell ?g = Some 2" by (simp add: selected_fields)
  have f: "char_at (initialBoard ?g) 2 = Some ''.''" by (simp add: selected_fields sample_free_2)
  have m: "noteMode ?g" by (simp add: changeNoteMode_def saveGame_def)
  show "selectedCell sample_noted = Some 2" "noteMode sample_noted"
    "initialBoard sample_noted = initialBoard sample_game"
    unfolding sample_noted_def by (simp_all add: placeNumber_free(3-5)[OF s f] selected_fields(3) m)
  show "notes_map sample_noted 2 = Some [''4'']"
    unfolding sample_noted_def
    by (simp add: placeNumber_free(2)[OF s f] place_update_notes selected_fields(5) m sample_fields
        toggle_note_def set_has_def set_add_def)
  show "array_get (board sample_noted) 2 = Some ''.''"
    unfolding sample_noted_def
    by (simp add: placeNumber_free(1)[OF s f] place_update_board array_get_set m)
qed

lemma violation_scan_iff:
  "violation_scan b c v is \<longleftrightarrow> (\<exists>i \<in> set is. i \<noteq> c \<and> related c i \<and> array_get b i = v)"
  by (induction "is") auto

lemma sample_clash_board: 
  "array_get (board sample_clash) 2 = Some ''5''"
  "array_get (board sample_clash) 0 = Some ''5''"
  "selectedCell sample_clash = Some 2"
  "initialBoard sample_clash = initialBoard sample_game"
proof -
  let ?g = "selectCell 2 sample_game"
  have s: "selectedCell ?g = Some 2" and m: "\<not> noteMode ?g"
    and b: "board ?g = board sample_game" and ib: "initialBoard ?g = initialBoard sample_game"
    by (simp_all add: selectCell_def saveGame_def Let_def sample_fields)
  have f: "char_at (initialBoard ?g) 2 = Some ''.''" by (simp add: ib sample_free_2)
  show "array_get (board sample_clash) 2 = Some ''5''"
    unfolding sample_clash_def
    by (simp add: placeNumber_free(1)[OF s f] place_update_board array_get_set m)
  have "array_get (board sample_clash) 0 = array_get (board sample_game) 0"
    unfolding sample_clash_def
    by (simp add: placeNumber_free(1)[OF s f] place_update_board array_get_set b)
  then show "array_get (board sample_clash) 0 = Some ''5''"
    by (simp add: sample_fields array_get_def split_chars_def)
  show "selectedCell sample_clash = Some 2" "initialBoard sample_clash = initialBoard sample_game"
    unfolding sample_clash_def by (simp_all add: placeNumber_free(3,4)[OF s f] ib)
qed

lemma sample_solution:
  "solution sample_game = split_chars ''534678912672195348198342567859761423426853791713924856961537284287419635345286179''"
  by (simp add: sample_game_eq startNewGame_def saveGame_def fresh_def sample_result_def Let_def)

lemma game_js_placeNumber_given:
  "char_at (js_initialBoard h) i \<noteq> Some ''.'' \<Longrightarrow>
     array_get (js_board (game_js_placeNumber n h)) i = array_get (js_board h) i"
  by (auto simp: game_js_placeNumber_def array_get_set split: option.splits)

lemma game_js_selectCell_given:
  "char_at (js_initialBoard h) i \<noteq> Some ''.'' \<Longrightarrow> game_js_selectCell i h = h"
  by (simp add: game_js_selectCell_def)

lemma game_js_note_erase:
  "js_noteMode h \<Longrightarrow> js_board (game_js_placeNumber [] h) = js_board h"
  by (simp add: game_js_placeNumber_def split: option.splits)

lemma game_js_note_twice:
  "js_selectedCell h = Some c \<Longrightarrow> char_at (js_initialBoard h) c = Some ''.'' \<Longrightarrow>
   js_noteMode h \<Longrightarrow> d \<noteq> [] \<Longrightarrow>
     js_notes (game_js_placeNumber d (game_js_placeNumber d h)) c = Some d"
  by (simp add: game_js_placeNumber_def)

lemma game_js_no_elimination:
  "p \<noteq> c \<Longrightarrow> js_selectedCell h = Some c \<Longrightarrow>
     js_notes (game_js_placeNumber d h) p = js_notes h p"
  by (simp add: game_js_placeNumber_def)

lemma toggle_note_at:
  "toggle_note d c nts c =
     (case nts c of
        None \<Rightarrow> Some [d]
      | Some s \<Rightarrow>
          if d \<in> set s then (if removeAll d s = [] then None else Some (removeAll d s))
          else Some (s @ [d]))"
  by (simp add: toggle_note_def Let_def set_has_def set_add_def set_delete_def split: option.splits)

lemma toggle_twice_members:
  assumes "nts c \<noteq> Some []"
  shows "map_option set (toggle_note d c (toggle_note d c nts) c) = map_option set (nts c)"
proof (cases "nts c")
  case None
  then show ?thesis by (simp add: toggle_note_at)
next
  case (Some s)
  then have ne: "s \<noteq> []" using assms by simp
  show ?thesis
  proof (cases "d \<in> set s")
    case True
    show ?thesis
    proof (cases "removeAll d s = []")
      case True
      then have "set s \<subseteq> {d}" by (metis removeAll_id removeAll.simps(1) True set_removeAll Diff_eq_empty_iff set_empty)
      then have "set s = {d}" using \<open>d \<in> set s\<close> by auto
      then show ?thesis using Some True \<open>d \<in> set s\<close> by (simp add: toggle_note_at)
    next
      case False
      then show ?thesis using Some True by (auto simp: toggle_note_at)
    qed
  next
    case False
    then show ?thesis using Some ne by (simp add: toggle_note_at)
  qed
qed

section \<open>The claims\<close>

text \<open>
  Claim C1. For every reachable game state \<open>S\<close>, \<open>loadGame\<close> on the item that
  \<open>saveGame\<close> wrote returns true and rebuilds the same board, solution, initial
  board, difficulty, selected cell and note mode, and at every cell a note set with
  the same members (whatever object \<open>g\<close> does the loading).
\<close>
theorem save_load_roundtrip:
  assumes "reachable S"
  shows "fst (loadGame (g\<lparr>storage := storage (saveGame S)\<rparr>)) \<and>
         board (snd (loadGame (g\<lparr>storage := storage (saveGame S)\<rparr>))) = board S \<and>
         solution (snd (loadGame (g\<lparr>storage := storage (saveGame S)\<rparr>))) = solution S \<and>
         initialBoard (snd (loadGame (g\<lparr>storage := storage (saveGame S)\<rparr>))) = initialBoard S \<and>
         (\<forall>i. map_option set (notes_map (snd (loadGame (g\<lparr>storage := storage (saveGame S)\<rparr>))) i) =
              map_option set (notes_map S i)) \<and>
         difficulty (snd (loadGame (g\<lparr>storage := storage (saveGame S)\<rparr>))) = difficulty S \<and>
         selectedCell (snd (loadGame (g\<lparr>storage := storage (saveGame S)\<rparr>))) = selectedCell S \<and>
         noteMode (snd (loadGame (g\<lparr>storage := storage (saveGame S)\<rparr>))) = noteMode S"
proof -
  have wf: "wellformed S" using assms by (simp add: reachable_wellformed)
  have ib: "initialBoard S \<noteq> []" using wf by (auto simp: wellformed_def)
  have d: "difficulty S \<in> set validDifficulties" using wf by (simp add: wellformed_def)
  have st: "storage (g\<lparr>storage := storage (saveGame S)\<rparr>) = Some (Parsed (snapshot_of S))"
    by (simp add: saveGame_storage)
  have n: "map_option set (map_option new_Set e) = map_option set e" for e :: "jsset option"
    by (cases e) (simp_all add: set_new_Set)
  show ?thesis
    by (simp add: loadGame_saved[OF st ib d] n)
qed

theorem save_load_roundtrip_witness:
  "reachable sample_noted \<and> notes_map sample_noted 2 = Some [''4''] \<and>
   fst (loadGame ((fresh None)\<lparr>storage := storage (saveGame sample_noted)\<rparr>)) \<and>
   map_option set (notes_map (snd (loadGame ((fresh None)\<lparr>storage := storage (saveGame sample_noted)\<rparr>))) 2)
     = Some {''4''} \<and>
   selectedCell (snd (loadGame ((fresh None)\<lparr>storage := storage (saveGame sample_noted)\<rparr>))) = Some 2 \<and>
   noteMode (snd (loadGame ((fresh None)\<lparr>storage := storage (saveGame sample_noted)\<rparr>)))"
  using save_load_roundtrip[OF reachable_noted, of "fresh None"] reachable_noted
  by (simp add: sample_noted_fields)

text \<open>
  Claim C2. At an index \<open>i\<close> where the initial board is not the empty marker,
  \<open>placeNumber\<close> with any input leaves the board value at \<open>i\<close> and the initial
  board unchanged; and in every reachable state the board equals the initial board at
  such a cell.
\<close>
theorem given_cells_immutable:
  "(char_at (initialBoard g) i \<noteq> Some ''.'' \<longrightarrow>
      array_get (board (placeNumber n g)) i = array_get (board g) i \<and>
      initialBoard (placeNumber n g) = initialBoard g) \<and>
   (reachable g \<and> i < 81 \<and> char_at (initialBoard g) i \<noteq> Some ''.'' \<longrightarrow>
      array_get (board g) i = char_at (initialBoard g) i)"
proof -
  have "array_get (board g) i = char_at (initialBoard g) i"
    if r: "reachable g" and i: "i < 81" and gv: "char_at (initialBoard g) i \<noteq> Some ''.''"
  proof -
    have wf: "wellformed g" using r by (simp add: reachable_wellformed)
    then have "initialBoard g ! i \<noteq> CHR ''.''" using gv i by (simp add: char_at_def wellformed_def)
    then show ?thesis using wf i by (simp add: wellformed_def array_get_def char_at_def)
  qed
  then show ?thesis
    by (simp add: placeNumber_given_cell placeNumber_initialBoard)
qed

theorem given_cells_immutable_witness:
  "char_at (initialBoard (selectCell 0 sample_game)) 0 = Some ''5'' \<and>
   array_get (board (placeNumber ''9'' (selectCell 0 sample_game))) 0 = Some ''5'' \<and>
   reachable (selectCell 0 sample_game) \<and>
   array_get (board (selectCell 0 sample_game)) 0 = Some ''5''"
proof -
  let ?g = "selectCell 0 sample_game"
  have r: "reachable ?g" by (intro reachable.select reachable_sample) simp
  have c: "char_at (initialBoard ?g) 0 = Some ''5''"
    by (simp add: selectCell_def saveGame_def Let_def sample_fields char_at_def)
  show ?thesis
    using given_cells_immutable[of ?g 0 "''9''"] r c by simp
qed

text \<open>
  Claim C3, amended. In every reachable state a cell with a board value other than
  the empty marker has no entry in the notes, a cell with an entry in the notes holds
  the empty marker, and no entry is an empty set. An empty cell need not have notes.
\<close>
theorem notes_exclude_values:
  assumes "reachable g"
  shows "(array_get (board g) i \<noteq> Some ''.'' \<longrightarrow> notes_map g i = None) \<and>
         (notes_map g i \<noteq> None \<longrightarrow> array_get (board g) i = Some ''.'') \<and>
         notes_map g i \<noteq> Some []"
proof -
  have wf: "wellformed g" using assms by (simp add: reachable_wellformed)
  have "array_get (board g) i = Some ''.''" if "notes_map g i \<noteq> None"
    using wf that by (simp add: wellformed_def array_get_def)
  moreover have "notes_map g i \<noteq> Some []" using wf by (simp add: wellformed_def)
  ultimately show ?thesis by blast
qed

text \<open>
  As the claim puts it, with "if and only if", every empty cell would carry notes.
  In a game just started cell 2 is empty and has none.
\<close>
theorem notes_exclude_values_cex:
  "reachable sample_game \<and>
   \<not> (array_get (board sample_game) 2 \<noteq> Some ''.'' \<longleftrightarrow> notes_map sample_game 2 = None)"
  using reachable_sample by (simp add: sample_fields array_get_def split_chars_def)

theorem notes_exclude_values_witness:
  "reachable sample_noted \<and> notes_map sample_noted 2 \<noteq> None \<and>
   array_get (board sample_noted) 2 = Some ''.'' \<and>
   array_get (board sample_noted) 0 \<noteq> Some ''.'' \<and> notes_map sample_noted 0 = None"
proof -
  let ?g = "changeNoteMode True (selectCell 2 sample_game)"
  have s: "selectedCell ?g = Some 2" by (simp add: selected_fields)
  have f: "char_at (initialBoard ?g) 2 = Some ''.''" by (simp add: selected_fields sample_free_2)
  have "array_get (board sample_noted) 0 = array_get (board sample_game) 0"
    unfolding sample_noted_def
    by (simp add: placeNumber_free(1)[OF s f] place_update_board array_get_set selected_fields(4))
  then have "array_get (board sample_noted) 0 = Some ''5''"
    by (simp add: sample_fields array_get_def split_chars_def)
  then show ?thesis
    using notes_exclude_values[OF reachable_noted, of 2]
      notes_exclude_values[OF reachable_noted, of 0] reachable_noted
    by (simp add: sample_noted_fields)
qed

text \<open>
  Claim C4. In value mode, placing a digit \<open>d\<close> (not the erase input) in the selected
  free cell \<open>c\<close> turns the note entry of every peer \<open>p\<close> of \<open>c\<close> into
  \<open>without d\<close> of it: \<open>d\<close> is removed and an entry that becomes empty is deleted,
  so \<open>d\<close> is in no peer's note set afterwards. The cell itself gets the value and
  loses its notes.
\<close>
theorem commit_eliminates_peer_notes:
  assumes "selectedCell g = Some c" and "char_at (initialBoard g) c = Some ''.''"
    and "\<not> noteMode g" and "d \<noteq> []" and "peer c p"
  shows "notes_map (placeNumber d g) p = without d (notes_map g p) \<and>
         (\<forall>s. notes_map (placeNumber d g) p = Some s \<longrightarrow> d \<notin> set s) \<and>
         notes_map (placeNumber d g) c = None \<and>
         array_get (board (placeNumber d g)) c = Some d"
proof -
  have pc: "p \<noteq> c" using assms(5) by (simp add: peer_def)
  have n: "notes_map (placeNumber d g) p = without d (notes_map g p)"
    using assms pc by (simp add: placeNumber_free(2)[OF assms(1,2)] place_update_notes)
  have "notes_map (placeNumber d g) c = None"
    using assms by (simp add: placeNumber_free(2)[OF assms(1,2)] place_update_notes)
  moreover have "array_get (board (placeNumber d g)) c = Some d"
    using assms by (simp add: placeNumber_free(1)[OF assms(1,2)] place_update_board array_get_set)
  ultimately show ?thesis using n without_Some[of d "notes_map g p"] by auto
qed

theorem commit_eliminates_peer_notes_witness:
  "selectedCell sample_penciled = Some 2 \<and>
   char_at (initialBoard sample_penciled) 2 = Some ''.'' \<and>
   \<not> noteMode sample_penciled \<and> peer 2 3 \<and> peer 2 11 \<and>
   notes_map sample_penciled 3 = Some [''4'', ''7''] \<and>
   notes_map sample_penciled 11 = Some [''4''] \<and>
   notes_map (placeNumber ''4'' sample_penciled) 3 = Some [''7''] \<and>
   notes_map (placeNumber ''4'' sample_penciled) 11 = None \<and>
   array_get (board (placeNumber ''4'' sample_penciled)) 2 = Some ''4''"
proof -
  have s: "selectedCell sample_penciled = Some 2"
    and f: "char_at (initialBoard sample_penciled) 2 = Some ''.''"
    and m: "\<not> noteMode sample_penciled"
    and n: "notes_map sample_penciled 3 = Some [''4'', ''7'']"
           "notes_map sample_penciled 11 = Some [''4'']"
    by (simp_all add: sample_penciled_def sample_fields char_at_def)
  have p: "peer 2 3" "peer 2 11" by (simp_all add: peer_def)
  have d: "''4'' \<noteq> []" by simp
  show ?thesis
    using commit_eliminates_peer_notes[OF s f m d p(1)]
      commit_eliminates_peer_notes[OF s f m d p(2)] s f m n p
    by (simp add: without_def)
qed

text \<open>
  Claim C5. On a board of 81 cells with a solution free of the empty marker,
  \<open>checkWin\<close> reports a win if and only if the board is complete and equals the
  solution at each of the 81 positions; so a complete board that differs from the
  solution somewhere is not a win.
\<close>
theorem checkWin_iff:
  assumes "length (board g) = 81" and "Some ''.'' \<notin> set (solution g)"
  shows "(fst (checkWin g) \<longleftrightarrow>
           isComplete g \<and> (\<forall>i<81. array_get (board g) i = array_get (solution g) i)) \<and>
         (isComplete g \<and> (\<exists>i<81. array_get (board g) i \<noteq> array_get (solution g) i) \<longrightarrow>
           \<not> fst (checkWin g))"
proof -
  have won: "fst (checkWin g) = isCorrect g" by (simp add: checkWin_def)
  have "isComplete g" if eq: "\<forall>i<81. array_get (board g) i = array_get (solution g) i"
  proof -
    have "x \<noteq> Some ''.''" if "x \<in> set (board g)" for x
    proof -
      from that obtain i where i: "i < length (board g)" "board g ! i = x"
        by (auto simp: in_set_conv_nth)
      then have "x = array_get (solution g) i" using eq assms(1) by (simp add: array_get_def)
      moreover have "array_get (solution g) i \<in> set (solution g) \<or> array_get (solution g) i = None"
        by (simp add: array_get_def)
      then have "array_get (solution g) i \<noteq> Some ''.''"
        using assms(2) by auto
      ultimately show ?thesis by simp
    qed
    then show ?thesis by (auto simp: isComplete_def)
  qed
  then have "fst (checkWin g) \<longleftrightarrow>
           isComplete g \<and> (\<forall>i<81. array_get (board g) i = array_get (solution g) i)"
    using assms(1) by (auto simp: won isCorrect_iff)
  then show ?thesis by blast
qed

theorem checkWin_iff_witness:
  "length (board sample_solved) = 81 \<and> Some ''.'' \<notin> set (solution sample_solved) \<and>
   isComplete sample_solved \<and> fst (checkWin sample_solved) \<and>
   length (board sample_wrong) = 81 \<and> Some ''.'' \<notin> set (solution sample_wrong) \<and>
   isComplete sample_wrong \<and> \<not> fst (checkWin sample_wrong)"
proof -
  have l: "length (board sample_solved) = 81" "length (board sample_wrong) = 81"
    by (simp_all add: sample_solved_def sample_wrong_def sample_solution split_chars_def array_set_def)
  have d: "Some ''.'' \<notin> set (solution sample_solved)" "Some ''.'' \<notin> set (solution sample_wrong)"
    by (simp_all add: sample_solved_def sample_wrong_def sample_solution split_chars_def)
  have eq: "\<forall>i<81. array_get (board sample_solved) i = array_get (solution sample_solved) i"
    by (simp add: sample_solved_def)
  have c: "isComplete sample_wrong" "isComplete sample_solved"
    by (simp_all add: isComplete_def sample_wrong_def sample_solved_def sample_solution
        split_chars_def array_set_def)
  have "array_get (board sample_wrong) 2 \<noteq> array_get (solution sample_wrong) 2"
    by (simp add: sample_wrong_def array_get_set) (simp add: sample_solution split_chars_def array_get_def)
  then have ne: "\<not> (\<forall>i<81. array_get (board sample_wrong) i = array_get (solution sample_wrong) i)"
    by (intro notI) (drule spec[of _ 2], simp)
  show ?thesis
    using checkWin_iff[OF l(1) d(1)] checkWin_iff[OF l(2) d(2)] l d eq c ne
    by simp
qed

text \<open>
  Claim C6. \<open>hasConstraintViolation\<close> is true at \<open>i\<close> if and only if the board
  value at \<open>i\<close> is not the empty marker and some peer of \<open>i\<close> (same row, column or
  box, \<open>i\<close> itself excluded) holds the identical value; it is false on an empty cell.
\<close>
theorem constraintViolation_iff:
  "hasConstraintViolation g i \<longleftrightarrow>
     (array_get (board g) i \<noteq> Some ''.'' \<and>
      (\<exists>p. peer i p \<and> array_get (board g) p = array_get (board g) i))"
proof -
  have "(\<exists>j \<in> set [0..<81]. j \<noteq> i \<and> related i j \<and> array_get (board g) j = array_get (board g) i)
        \<longleftrightarrow> (\<exists>p. peer i p \<and> array_get (board g) p = array_get (board g) i)"
    using related_peer[of _ i] by (auto simp: peer_def)
  then show ?thesis
    by (simp add: hasConstraintViolation_def Let_def violation_scan_iff)
qed

theorem constraintViolation_iff_witness:
  "hasConstraintViolation sample_clash 2 \<and> hasConstraintViolation sample_clash 0 \<and>
   \<not> hasConstraintViolation sample_game 2"
proof -
  have p: "peer 2 0" "peer 0 2" by (simp_all add: peer_def)
  have e: "array_get (board sample_game) 2 = Some ''.''"
    by (simp add: sample_fields array_get_def split_chars_def)
  have "hasConstraintViolation sample_clash 2"
    using constraintViolation_iff[of sample_clash 2] p(1) by (auto simp: sample_clash_board)
  moreover have "hasConstraintViolation sample_clash 0"
    using constraintViolation_iff[of sample_clash 0] p(2) by (auto simp: sample_clash_board)
  moreover have "\<not> hasConstraintViolation sample_game 2"
    using constraintViolation_iff[of sample_game 2] e by simp
  ultimately show ?thesis by simp
qed

text \<open>
  Claim C7. For every cell index \<open>i\<close>, given or not, \<open>selectCell\<close> makes \<open>i\<close> the
  selection, and the highlighted cells are exactly the peers of \<open>i\<close> and the other
  cells holding the same non-empty value as \<open>i\<close>; \<open>i\<close> itself is not highlighted.
\<close>
theorem selectCell_highlight:
  assumes "i < 81"
  shows "selectedCell (selectCell i g) = Some i \<and>
     (\<forall>j. j \<in> set (highlightRelatedCells (selectCell i g) i) \<longleftrightarrow>
          j < 81 \<and> j \<noteq> i \<and>
          (peer i j \<or>
           (array_get (board g) i \<noteq> Some ''.'' \<and> array_get (board g) j = array_get (board g) i)))"
proof -
  have b: "board (selectCell i g) = board g"
    by (simp add: selectCell_def saveGame_def Let_def)
  have s: "selectedCell (selectCell i g) = Some i"
    by (simp add: selectCell_def saveGame_def Let_def)
  have "j \<in> set (highlightRelatedCells (selectCell i g) i) \<longleftrightarrow>
          j < 81 \<and> j \<noteq> i \<and>
          (peer i j \<or>
           (array_get (board g) i \<noteq> Some ''.'' \<and> array_get (board g) j = array_get (board g) i))" for j
    unfolding highlightRelatedCells_def b Let_def
    using related_peer[of j i] by (auto simp: peer_def)
  with s show ?thesis by simp
qed

theorem selectCell_highlight_witness:
  "(0::nat) < 81 \<and> char_at (initialBoard sample_game) 0 = Some ''5'' \<and>
   selectedCell (selectCell 0 sample_game) = Some 0 \<and>
   1 \<in> set (highlightRelatedCells (selectCell 0 sample_game) 0) \<and>
   14 \<in> set (highlightRelatedCells (selectCell 0 sample_game) 0) \<and>
   \<not> peer 0 14 \<and>
   0 \<notin> set (highlightRelatedCells (selectCell 0 sample_game) 0) \<and>
   40 \<notin> set (highlightRelatedCells (selectCell 0 sample_game) 0)"
proof -
  have c: "char_at (initialBoard sample_game) 0 = Some ''5''"
    by (simp add: sample_fields char_at_def)
  have v: "array_get (board sample_game) 0 = Some ''5''" "array_get (board sample_game) 14 = Some ''5''"
    "array_get (board sample_game) 40 = Some ''.''"
    by (simp_all add: sample_fields array_get_def split_chars_def)
  have p: "peer 0 1" "\<not> peer 0 14" "\<not> peer 0 40" by (simp_all add: peer_def)
  show ?thesis
    using selectCell_highlight[of 0 sample_game] c v p by simp
qed

text \<open>
  Claim C8. In note mode, with a free cell selected, the erase input sets the board
  value of the selected cell to the empty marker and deletes its note entry.
\<close>
theorem note_mode_erase:
  assumes "selectedCell g = Some c" and "char_at (initialBoard g) c = Some ''.''"
    and "noteMode g"
  shows "array_get (board (placeNumber [] g)) c = Some ''.'' \<and>
         notes_map (placeNumber [] g) c = None"
  using assms
  by (simp add: placeNumber_free(1,2)[OF assms(1,2)] place_update_board place_update_notes
      array_get_set)

theorem note_mode_erase_witness:
  "selectedCell sample_valued = Some 2 \<and>
   char_at (initialBoard sample_valued) 2 = Some ''.'' \<and> noteMode sample_valued \<and>
   array_get (board sample_valued) 2 = Some ''4'' \<and>
   array_get (board (placeNumber [] sample_valued)) 2 = Some ''.'' \<and>
   notes_map (placeNumber [] sample_valued) 2 = None"
proof -
  let ?g = "selectCell 2 sample_game"
  have s0: "selectedCell ?g = Some 2" and m0: "\<not> noteMode ?g"
    and ib0: "initialBoard ?g = initialBoard sample_game"
    by (simp_all add: selectCell_def saveGame_def Let_def sample_fields)
  have f0: "char_at (initialBoard ?g) 2 = Some ''.''" by (simp add: ib0 sample_free_2)
  have s: "selectedCell sample_valued = Some 2"
    and f: "char_at (initialBoard sample_valued) 2 = Some ''.''"
    and m: "noteMode sample_valued"
    by (simp_all add: sample_valued_def changeNoteMode_def saveGame_def
        placeNumber_free(3,4)[OF s0 f0] f0)
  have v: "array_get (board sample_valued) 2 = Some ''4''"
    by (simp add: sample_valued_def changeNoteMode_def saveGame_def
        placeNumber_free(1)[OF s0 f0] place_update_board array_get_set m0)
  show ?thesis
    using note_mode_erase[OF s f m] s f m v by simp
qed

text \<open>
  Claim C9. In note mode, on a selected free cell without notes, entering a digit
  \<open>d\<close> adds the entry \<open>{d}\<close>, and entering \<open>d\<close> again deletes the entry: the cell
  is back to having no notes, and its board value is the empty marker.
\<close>
theorem note_toggle_twice:
  assumes "selectedCell g = Some c" and "char_at (initialBoard g) c = Some ''.''"
    and "noteMode g" and "d \<noteq> []" and "notes_map g c = None"
  shows "notes_map (placeNumber d g) c = Some [d] \<and>
         notes_map (placeNumber d (placeNumber d g)) c = None \<and>
         array_get (board (placeNumber d (placeNumber d g))) c = Some ''.''"
proof -
  let ?g1 = "placeNumber d g"
  have s1: "selectedCell ?g1 = Some c" and f1: "char_at (initialBoard ?g1) c = Some ''.''"
    and m1: "noteMode ?g1"
    using assms by (simp_all add: placeNumber_free(3-5)[OF assms(1,2)])
  have n1: "notes_map ?g1 c = toggle_note d c (notes_map g) c"
    using assms by (simp add: placeNumber_free(2)[OF assms(1,2)] place_update_notes)
  have n1': "notes_map ?g1 c = Some [d]"
    using assms by (simp add: n1 toggle_note_def Let_def set_has_def set_add_def)
  have "notes_map (placeNumber d ?g1) c = toggle_note d c (notes_map ?g1) c"
    using assms m1 by (simp add: placeNumber_free(2)[OF s1 f1] place_update_notes)
  then have n2: "notes_map (placeNumber d ?g1) c = None"
    by (simp add: toggle_note_def Let_def set_has_def set_delete_def n1')
  have "array_get (board (placeNumber d ?g1)) c = Some ''.''"
    using m1 by (simp add: placeNumber_free(1)[OF s1 f1] place_update_board array_get_set)
  with n1' n2 show ?thesis by simp
qed

theorem note_toggle_twice_witness:
  "selectedCell (changeNoteMode True (selectCell 2 sample_game)) = Some 2 \<and>
   char_at (initialBoard (changeNoteMode True (selectCell 2 sample_game))) 2 = Some ''.'' \<and>
   noteMode (changeNoteMode True (selectCell 2 sample_game)) \<and>
   notes_map (changeNoteMode True (selectCell 2 sample_game)) 2 = None \<and>
   notes_map sample_noted 2 = Some [''4''] \<and>
   notes_map (placeNumber ''4'' sample_noted) 2 = None"
proof -
  let ?g = "changeNoteMode True (selectCell 2 sample_game)"
  have s: "selectedCell ?g = Some 2" by (simp add: selected_fields)
  have f: "char_at (initialBoard ?g) 2 = Some ''.''" by (simp add: selected_fields sample_free_2)
  have m: "noteMode ?g" by (simp add: changeNoteMode_def saveGame_def)
  have n: "notes_map ?g 2 = None" by (simp add: selected_fields sample_fields)
  have d: "''4'' \<noteq> []" by simp
  show ?thesis
    using note_toggle_twice[OF s f m d n] s f m n by (simp add: sample_noted_def)
qed

text \<open>
  Claim C10. \<open>loadGame\<close> returns true exactly when the stored item parses to a
  snapshot with a board, a solution and a non-empty initial board: it returns false,
  and changes nothing, when the item is missing or cannot be parsed or one of the
  three fields is absent, and the constructor then starts a new game. Neither the
  notes nor the difficulty can make it fail: a note stored as a one-character string
  becomes a one-element set, and a difficulty that is missing or not one of the four
  becomes \<open>medium\<close>.
\<close>
theorem loadGame_validation:
  "(fst (loadGame g) \<longleftrightarrow>
      (\<exists>s b sol ib. storage g = Some (Parsed s) \<and> s_board s = Some b \<and>
         s_solution s = Some sol \<and> s_initialBoard s = Some ib \<and> ib \<noteq> [])) \<and>
   (\<not> fst (loadGame g) \<longrightarrow> snd (loadGame g) = g) \<and>
   (\<not> fst (loadGame (fresh st)) \<longrightarrow> constructor r st = startNewGame r (fresh st)) \<and>
   (fst (loadGame g) \<and> storage g = Some (Parsed s) \<and> s_notes s = Some entries \<and>
      entries k = Some (NoteString [c]) \<longrightarrow>
      notes_map (snd (loadGame g)) k = Some [[c]]) \<and>
   (fst (loadGame g) \<and> storage g = Some (Parsed s) \<and>
      (\<forall>d. s_difficulty s = Some d \<longrightarrow> d \<notin> set validDifficulties) \<longrightarrow>
      difficulty (snd (loadGame g)) = ''medium'')"
proof (intro conjI impI)
  show "fst (loadGame g) \<longleftrightarrow>
      (\<exists>s b sol ib. storage g = Some (Parsed s) \<and> s_board s = Some b \<and>
         s_solution s = Some sol \<and> s_initialBoard s = Some ib \<and> ib \<noteq> [])"
    by (auto simp: loadGame_def split: option.splits item.splits)
next
  assume "\<not> fst (loadGame g)"
  then show "snd (loadGame g) = g"
    by (auto simp: loadGame_def split: option.splits item.splits if_splits)
next
  assume "\<not> fst (loadGame (fresh st))"
  then show "constructor r st = startNewGame r (fresh st)"
    by (cases "loadGame (fresh st)")
       (auto simp: constructor_def loadGame_def split: option.splits item.splits if_splits)
next
  assume "fst (loadGame g) \<and> storage g = Some (Parsed s) \<and> s_notes s = Some entries \<and>
      entries k = Some (NoteString [c])"
  then show "notes_map (snd (loadGame g)) k = Some [[c]]"
    by (auto simp: loadGame_def load_notes_def new_Set_def set_add_def split: option.splits if_splits)
next
  assume "fst (loadGame g) \<and> storage g = Some (Parsed s) \<and>
      (\<forall>d. s_difficulty s = Some d \<longrightarrow> d \<notin> set validDifficulties)"
  then show "difficulty (snd (loadGame g)) = ''medium''"
    by (auto simp: loadGame_def split: option.splits if_splits)
qed

theorem loadGame_validation_witness:
  "\<not> fst (loadGame (fresh None)) \<and> snd (loadGame (fresh None)) = fresh None \<and>
   \<not> fst (loadGame (fresh (Some Unparseable))) \<and>
   \<not> fst (loadGame (fresh (Some (Parsed ((snapshot_of sample_game)\<lparr>s_solution := None\<rparr>))))) \<and>
   constructor sample_result (Some Unparseable) =
     startNewGame sample_result (fresh (Some Unparseable)) \<and>
   fst (loadGame (fresh (Some (Parsed legacy_snapshot)))) \<and>
   notes_map (snd (loadGame (fresh (Some (Parsed legacy_snapshot))))) 2 = Some [''4''] \<and>
   difficulty (snd (loadGame (fresh (Some (Parsed legacy_snapshot))))) = ''medium''"
proof -
  let ?s = "(snapshot_of sample_game)\<lparr>s_solution := None\<rparr>"
  let ?l = "fresh (Some (Parsed legacy_snapshot))"
  have 1: "\<not> fst (loadGame (fresh None))"
    using loadGame_validation[of "fresh None"] by (simp add: fresh_def)
  have 2: "\<not> fst (loadGame (fresh (Some Unparseable)))"
    using loadGame_validation[of "fresh (Some Unparseable)"] by (simp add: fresh_def)
  have 3: "\<not> fst (loadGame (fresh (Some (Parsed ?s))))"
    using loadGame_validation[of "fresh (Some (Parsed ?s))"] by (simp add: fresh_def)
  have 4: "constructor sample_result (Some Unparseable) =
     startNewGame sample_result (fresh (Some Unparseable))"
    using loadGame_validation[of _ "Some Unparseable" sample_result] 2 by simp
  have 0: "snd (loadGame (fresh None)) = fresh None"
    using loadGame_validation[of "fresh None"] 1 by simp
  have ib: "initialBoard sample_game \<noteq> []" by (simp add: sample_fields)
  have st: "storage ?l = Some (Parsed legacy_snapshot)" by (simp add: fresh_def)
  have "storage ?l = Some (Parsed legacy_snapshot) \<and>
        s_board legacy_snapshot = Some (board sample_game) \<and>
        s_solution legacy_snapshot = Some (solution sample_game) \<and>
        s_initialBoard legacy_snapshot = Some (initialBoard sample_game) \<and>
        initialBoard sample_game \<noteq> []"
    using ib st by (simp add: legacy_snapshot_def snapshot_of_fields)
  then have "\<exists>s b sol ib. storage ?l = Some (Parsed s) \<and> s_board s = Some b \<and>
         s_solution s = Some sol \<and> s_initialBoard s = Some ib \<and> ib \<noteq> []"
    by blast
  then have 5: "fst (loadGame ?l)"
    by (rule iffD2[OF loadGame_validation[of ?l, THEN conjunct1]])
  have en: "s_notes legacy_snapshot = Some (\<lambda>k. if k = 2 then Some (NoteString ''4'') else None)"
    by (simp add: legacy_snapshot_def)
  have df: "\<forall>d. s_difficulty legacy_snapshot = Some d \<longrightarrow> d \<notin> set validDifficulties"
    by (simp add: legacy_snapshot_def validDifficulties_def)
  have 6: "notes_map (snd (loadGame ?l)) 2 = Some [''4'']"
    using loadGame_validation[of ?l _ _ legacy_snapshot
        "\<lambda>k. if k = 2 then Some (NoteString ''4'') else None" 2 "CHR ''4''"] st 5 en
    by simp
  have 7: "difficulty (snd (loadGame ?l)) = ''medium''"
    using loadGame_validation[of ?l _ _ legacy_snapshot] st 5 df by blast
  from 0 1 2 3 4 5 6 7 show ?thesis by simp
qed

end
